theory Spec2Isabelle
  imports Complex_Main "HOL-Library.Word" "HOL-Library.Monad_Syntax"
begin

section \<open>JavaScript values reaching the validator\<close>

text \<open>
  The file \<^verbatim>\<open>src/functions/product-updated-http.ts\<close> holds three functions:
  \<^verbatim>\<open>isIsoDateString\<close>, \<^verbatim>\<open>validatePayload\<close> and \<^verbatim>\<open>productUpdatedHttpHandler\<close>.
  The validator takes \<^verbatim>\<open>body: any\<close>, so its input is an arbitrary JavaScript value.

  A JavaScript string is a sequence of UTF-16 code units.
\<close>

type_synonym jsstring = "16 word list"

definition ustr :: "string \<Rightarrow> jsstring" where
  \<comment> \<open>a source literal (ASCII) as code units\<close>
  "ustr s = map (\<lambda>c. of_nat (of_char c)) s"

text \<open>
  A Number is an IEEE double: NaN, the two infinities, or a finite value. Every finite
  double is a rational number; the checks of the validator (\<^verbatim>\<open>Number.isInteger\<close>,
  \<^verbatim>\<open>< 0\<close>, truthiness) treat \<^verbatim>\<open>-0\<close> as \<^verbatim>\<open>0\<close>, so the two zeros are one value here.
\<close>

datatype jsnumber = NaN | PosInfinity | NegInfinity | Finite rat

datatype jsvalue =
    JUndefined
  | JNull
  | JBool bool
  | JNumber jsnumber
  | JString jsstring
  | JArray "jsvalue list"
  | JObject "(jsstring \<times> jsvalue) list"

datatype jstype = T_undefined | T_object | T_boolean | T_number | T_string

fun typeof :: "jsvalue \<Rightarrow> jstype" where
  "typeof JUndefined = T_undefined"
| "typeof JNull = T_object"
| "typeof (JBool _) = T_boolean"
| "typeof (JNumber _) = T_number"
| "typeof (JString _) = T_string"
| "typeof (JArray _) = T_object"
| "typeof (JObject _) = T_object"

fun falsy :: "jsvalue \<Rightarrow> bool" where
  \<comment> \<open>\<^verbatim>\<open>!v\<close>: ToBoolean is false on undefined, null, false, 0, NaN and the empty string\<close>
  "falsy JUndefined = True"
| "falsy JNull = True"
| "falsy (JBool b) = (\<not> b)"
| "falsy (JNumber n) = (n = NaN \<or> n = Finite 0)"
| "falsy (JString s) = (s = [])"
| "falsy (JArray _) = False"
| "falsy (JObject _) = False"

fun get_prop :: "jsvalue \<Rightarrow> jsstring \<Rightarrow> jsvalue" where
  \<comment> \<open>Reading a property named by a destructuring pattern. An object is given by the list
      of its own properties. The five names the validator reads are neither array indices
      nor \<^verbatim>\<open>length\<close>, and no prototype defines them, so an array has none of them.\<close>
  "get_prop (JObject kvs) k = (case map_of kvs k of Some v \<Rightarrow> v | None \<Rightarrow> JUndefined)"
| "get_prop _ k = JUndefined"

subsection \<open>String.prototype.trim\<close>

definition is_white_space :: "16 word \<Rightarrow> bool" where
  \<comment> \<open>WhiteSpace and LineTerminator of ECMA-262\<close>
  "is_white_space c =
     (c = 0x0009 \<or> c = 0x000A \<or> c = 0x000B \<or> c = 0x000C \<or> c = 0x000D \<or> c = 0x0020
      \<or> c = 0x00A0 \<or> c = 0x1680 \<or> (0x2000 \<le> c \<and> c \<le> 0x200A) \<or> c = 0x2028
      \<or> c = 0x2029 \<or> c = 0x202F \<or> c = 0x205F \<or> c = 0x3000 \<or> c = 0xFEFF)"

definition trim :: "jsstring \<Rightarrow> jsstring" where
  "trim s = rev (dropWhile is_white_space (rev (dropWhile is_white_space s)))"

subsection \<open>Number.isInteger and comparison with zero\<close>

fun Number_isInteger :: "jsnumber \<Rightarrow> bool" where
  "Number_isInteger (Finite r) = (frac r = 0)"
| "Number_isInteger _ = False"

fun less_zero :: "jsnumber \<Rightarrow> bool" where
  \<comment> \<open>\<^verbatim>\<open>n < 0\<close>\<close>
  "less_zero (Finite r) = (r < 0)"
| "less_zero NegInfinity = True"
| "less_zero _ = False"

section \<open>The Date built-in, after ECMA-262\<close>

text \<open>
  \<^verbatim>\<open>isIsoDateString\<close> calls \<^verbatim>\<open>new Date(value)\<close>, \<^verbatim>\<open>getTime\<close> and \<^verbatim>\<open>toISOString\<close>.
  A time value is a number of milliseconds since 1970-01-01T00:00:00Z, or NaN
  (\<open>None\<close> below). The day and year arithmetic follows the abstract operations of the
  language specification, under their names.
\<close>

definition msPerDay :: int where "msPerDay = 86400000"
definition msPerHour :: int where "msPerHour = 3600000"
definition msPerMinute :: int where "msPerMinute = 60000"
definition msPerSecond :: int where "msPerSecond = 1000"

definition Day :: "int \<Rightarrow> int" where
  "Day t = t div msPerDay"

definition TimeWithinDay :: "int \<Rightarrow> int" where
  "TimeWithinDay t = t mod msPerDay"

definition DaysInYear :: "int \<Rightarrow> int" where
  "DaysInYear y =
     (if y mod 4 \<noteq> 0 then 365
      else if y mod 100 \<noteq> 0 then 366
      else if y mod 400 \<noteq> 0 then 365
      else 366)"

definition DayFromYear :: "int \<Rightarrow> int" where
  "DayFromYear y =
     365 * (y - 1970) + (y - 1969) div 4 - (y - 1901) div 100 + (y - 1601) div 400"

definition TimeFromYear :: "int \<Rightarrow> int" where
  "TimeFromYear y = msPerDay * DayFromYear y"

text \<open>
  \<^verbatim>\<open>YearFromTime(t)\<close> is the largest year \<open>y\<close> with \<^verbatim>\<open>TimeFromYear(y) <= t\<close>. It is
  computed by an upward search from a year that is not after it: a year has at most 366
  and at least 365 days.
\<close>

lemma mod_100_4: "y mod 100 = 0 \<Longrightarrow> y mod 4 = 0" for y :: int
  using mod_mod_cancel [of 4 100 y] by simp

lemma mod_400_100: "y mod 400 = 0 \<Longrightarrow> y mod 100 = 0" for y :: int
  using mod_mod_cancel [of 100 400 y] by simp

lemma div_succ:
  fixes a k :: int
  assumes k: "0 < k"
  shows "(a + 1) div k = a div k + (if (a + 1) mod k = 0 then 1 else 0)"
proof -
  define q where "q = a div k"
  define r where "r = a mod k"
  have a: "a = k * q + r" by (simp add: q_def r_def)
  have r: "0 \<le> r" "r < k" using k by (simp_all add: r_def)
  show ?thesis
  proof (cases "r + 1 = k")
    case True
    have e: "a + 1 = k * (q + 1) + 0" using a True by (simp add: algebra_simps)
    have "(a + 1) div k = q + 1" using e k by (intro int_div_pos_eq [where r = 0]) auto
    moreover have "(a + 1) mod k = 0" using e k by (intro int_mod_pos_eq [where q = "q + 1"]) auto
    ultimately show ?thesis by (simp add: q_def)
  next
    case False
    have e: "a + 1 = k * q + (r + 1)" using a by simp
    have lt: "r + 1 < k" using False r by simp
    have "(a + 1) div k = q" using e lt r by (intro int_div_pos_eq [where r = "r + 1"]) auto
    moreover have "(a + 1) mod k = r + 1" using e lt r by (intro int_mod_pos_eq [where q = q]) auto
    ultimately show ?thesis using r by (simp add: q_def)
  qed
qed
lemma mod_shift: "c mod k = 0 \<Longrightarrow> (y - c) mod k = y mod k" for y c k :: int
  using mod_diff_right_eq [of y c k] by simp

lemma div_step_const:
  fixes y c k :: int
  assumes "0 < k" and "c mod k = 0"
  shows "(y - c) div k = (y - c - 1) div k + (if y mod k = 0 then 1 else 0)"
proof -
  have "(y - c - 1 + 1) div k = (y - c - 1) div k + (if (y - c - 1 + 1) mod k = 0 then 1 else 0)"
    by (rule div_succ [OF assms(1)])
  moreover have "y - c - 1 + 1 = y - c" by simp
  moreover have "(y - c) mod k = y mod k" by (rule mod_shift [OF assms(2)])
  ultimately show ?thesis by simp
qed

lemma div4_step: "(y - 1968) div 4 = (y - 1969) div 4 + (if y mod 4 = 0 then 1 else 0)" for y :: int
proof -
  have "(y - 1968) div 4 = (y - 1968 - 1) div 4 + (if y mod 4 = 0 then 1 else 0)"
    by (rule div_step_const) simp_all
  then show ?thesis by simp
qed

lemma div100_step: "(y - 1900) div 100 = (y - 1901) div 100 + (if y mod 100 = 0 then 1 else 0)" for y :: int
proof -
  have "(y - 1900) div 100 = (y - 1900 - 1) div 100 + (if y mod 100 = 0 then 1 else 0)"
    by (rule div_step_const) simp_all
  then show ?thesis by simp
qed

lemma div400_step: "(y - 1600) div 400 = (y - 1601) div 400 + (if y mod 400 = 0 then 1 else 0)" for y :: int
proof -
  have "(y - 1600) div 400 = (y - 1600 - 1) div 400 + (if y mod 400 = 0 then 1 else 0)"
    by (rule div_step_const) simp_all
  then show ?thesis by simp
qed

lemma DayFromYear_step: "DayFromYear (y + 1) = DayFromYear y + DaysInYear y"
proof -
  have "DayFromYear (y + 1) =
      365 * (y - 1969) + (y - 1968) div 4 - (y - 1900) div 100 + (y - 1600) div 400"
    by (simp add: DayFromYear_def)
  also have "\<dots> = DayFromYear y + DaysInYear y"
    unfolding div4_step div100_step div400_step DayFromYear_def DaysInYear_def
    using mod_100_4 [of y] mod_400_100 [of y] by auto
  finally show ?thesis .
qed

lemma DaysInYear_pos: "365 \<le> DaysInYear y"
  by (simp add: DaysInYear_def)

function year_search :: "int \<Rightarrow> int \<Rightarrow> int" where
  "year_search d y = (if DayFromYear (y + 1) \<le> d then year_search d (y + 1) else y)"
  by pat_completeness auto
termination
proof (relation "measure (\<lambda>(d, y). nat (d + 1 - DayFromYear (y + 1)))")
  show "wf (measure (\<lambda>(d, y). nat (d + 1 - DayFromYear (y + 1))))"
    by simp
next
  fix d y :: int
  assume "DayFromYear (y + 1) \<le> d"
  moreover have "DayFromYear (y + 1 + 1) = DayFromYear (y + 1) + DaysInYear (y + 1)"
    by (rule DayFromYear_step)
  moreover have "365 \<le> DaysInYear (y + 1)"
    by (rule DaysInYear_pos)
  ultimately show "((d, y + 1), (d, y)) \<in> measure (\<lambda>(d, y). nat (d + 1 - DayFromYear (y + 1)))"
    by simp
qed

declare year_search.simps [simp del]

definition YearFromTime :: "int \<Rightarrow> int" where
  "YearFromTime t =
     (let d = Day t
      in year_search d (1970 + (if 0 \<le> d then d div 366 else d div 365)))"

definition DayWithinYear :: "int \<Rightarrow> int" where
  "DayWithinYear t = Day t - DayFromYear (YearFromTime t)"

definition InLeapYear :: "int \<Rightarrow> int" where
  "InLeapYear t = (if DaysInYear (YearFromTime t) = 366 then 1 else 0)"

definition MonthFromTime :: "int \<Rightarrow> int" where
  "MonthFromTime t =
     (let d = DayWithinYear t; l = InLeapYear t
      in if d < 31 then 0
         else if d < 59 + l then 1
         else if d < 90 + l then 2
         else if d < 120 + l then 3
         else if d < 151 + l then 4
         else if d < 181 + l then 5
         else if d < 212 + l then 6
         else if d < 243 + l then 7
         else if d < 273 + l then 8
         else if d < 304 + l then 9
         else if d < 334 + l then 10
         else 11)"

definition DateFromTime :: "int \<Rightarrow> int" where
  "DateFromTime t =
     (let d = DayWithinYear t; l = InLeapYear t; m = MonthFromTime t
      in if m = 0 then d + 1
         else if m = 1 then d - 30
         else if m = 2 then d - 58 - l
         else if m = 3 then d - 89 - l
         else if m = 4 then d - 119 - l
         else if m = 5 then d - 150 - l
         else if m = 6 then d - 180 - l
         else if m = 7 then d - 211 - l
         else if m = 8 then d - 242 - l
         else if m = 9 then d - 272 - l
         else if m = 10 then d - 303 - l
         else d - 333 - l)"

definition HourFromTime :: "int \<Rightarrow> int" where
  "HourFromTime t = (t div msPerHour) mod 24"

definition MinFromTime :: "int \<Rightarrow> int" where
  "MinFromTime t = (t div msPerMinute) mod 60"

definition SecFromTime :: "int \<Rightarrow> int" where
  "SecFromTime t = (t div msPerSecond) mod 60"

definition msFromTime :: "int \<Rightarrow> int" where
  "msFromTime t = t mod msPerSecond"

definition MakeTime :: "int \<Rightarrow> int \<Rightarrow> int \<Rightarrow> int \<Rightarrow> int" where
  "MakeTime h m s ms = h * msPerHour + m * msPerMinute + s * msPerSecond + ms"

definition DaysBeforeMonth :: "int \<Rightarrow> int \<Rightarrow> int" where
  \<comment> \<open>days of the year \<open>y\<close> before its month \<open>m\<close> (0 = January)\<close>
  "DaysBeforeMonth y m =
     (let l = (if DaysInYear y = 366 then 1 else 0)
      in if m = 0 then 0
         else if m = 1 then 31
         else if m = 2 then 59 + l
         else if m = 3 then 90 + l
         else if m = 4 then 120 + l
         else if m = 5 then 151 + l
         else if m = 6 then 181 + l
         else if m = 7 then 212 + l
         else if m = 8 then 243 + l
         else if m = 9 then 273 + l
         else if m = 10 then 304 + l
         else 334 + l)"

definition DaysInMonth :: "int \<Rightarrow> int \<Rightarrow> int" where
  "DaysInMonth y m =
     (if m = 11 then 31 else DaysBeforeMonth y (m + 1) - DaysBeforeMonth y m)"

definition MakeDay :: "int \<Rightarrow> int \<Rightarrow> int \<Rightarrow> int" where
  \<comment> \<open>the day number of the date \<open>dt\<close> of month \<open>m\<close> (0 to 11) of year \<open>y\<close>\<close>
  "MakeDay y m dt = DayFromYear y + DaysBeforeMonth y m + dt - 1"

definition MakeDate :: "int \<Rightarrow> int \<Rightarrow> int" where
  "MakeDate day time = day * msPerDay + time"

definition TimeClip :: "int \<Rightarrow> int option" where
  "TimeClip t = (if \<bar>t\<bar> > 8640000000000000 then None else Some t)"

subsection \<open>Date.prototype.toISOString\<close>

definition digit_char :: "int \<Rightarrow> 16 word" where
  "digit_char d = word_of_int (48 + d)"

fun pad :: "nat \<Rightarrow> int \<Rightarrow> jsstring" where
  \<comment> \<open>the last \<open>n\<close> decimal digits of \<open>v\<close>, zero-padded\<close>
  "pad 0 v = []"
| "pad (Suc n) v = pad n (v div 10) @ [digit_char (v mod 10)]"

definition year_string :: "int \<Rightarrow> jsstring" where
  \<comment> \<open>four digits from 0 to 9999, otherwise a sign and six digits\<close>
  "year_string y =
     (if 0 \<le> y \<and> y \<le> 9999 then pad 4 y
      else (if y < 0 then 0x2D else 0x2B) # pad 6 \<bar>y\<bar>)"

definition toISOString :: "int \<Rightarrow> jsstring" where
  \<comment> \<open>\<^verbatim>\<open>YYYY-MM-DDTHH:mm:ss.sssZ\<close>, of a time value that is not NaN\<close>
  "toISOString t =
     year_string (YearFromTime t) @ [0x2D] @ pad 2 (MonthFromTime t + 1) @ [0x2D]
     @ pad 2 (DateFromTime t) @ [0x54] @ pad 2 (HourFromTime t) @ [0x3A]
     @ pad 2 (MinFromTime t) @ [0x3A] @ pad 2 (SecFromTime t) @ [0x2E]
     @ pad 3 (msFromTime t) @ [0x5A]"

subsection \<open>Date.parse and the Date constructor\<close>

text \<open>
  \<^verbatim>\<open>Date.parse\<close> first reads its argument in the Date Time String Format: a date
  \<^verbatim>\<open>YYYY\<close>, \<^verbatim>\<open>YYYY-MM\<close> or \<^verbatim>\<open>YYYY-MM-DD\<close> (the year may be expanded to a sign and six
  digits), optionally followed by a time \<^verbatim>\<open>THH:mm\<close>, \<^verbatim>\<open>THH:mm:ss\<close> or \<^verbatim>\<open>THH:mm:ss.sss\<close>
  and then by an offset \<^verbatim>\<open>Z\<close>, \<^verbatim>\<open>+HH:mm\<close> or \<^verbatim>\<open>-HH:mm\<close>. A date without time is UTC; a
  time without offset is local time. For a string that is not an instance of the format
  (by its syntax or by an element out of bounds) the language leaves the result to the
  implementation. Both what the implementation does then and the local time zone belong
  to the runtime, a parameter of the model.
\<close>

record runtime =
  LocalTZA :: "int \<Rightarrow> int"
  fallback_parse :: "jsstring \<Rightarrow> int option"

definition is_digit :: "16 word \<Rightarrow> bool" where
  "is_digit c = (0x30 \<le> c \<and> c \<le> 0x39)"

definition digit_value :: "16 word \<Rightarrow> int" where
  "digit_value c = uint c - 48"

definition number_of_digits :: "jsstring \<Rightarrow> int" where
  "number_of_digits ds = foldl (\<lambda>n c. 10 * n + digit_value c) 0 ds"

definition take_digits :: "nat \<Rightarrow> jsstring \<Rightarrow> (int \<times> jsstring) option" where
  \<comment> \<open>exactly \<open>n\<close> decimal digits at the front of \<open>s\<close>: their value and the rest\<close>
  "take_digits n s =
     (if n \<le> length s \<and> list_all is_digit (take n s)
      then Some (number_of_digits (take n s), drop n s) else None)"

definition expect :: "16 word \<Rightarrow> jsstring \<Rightarrow> jsstring option" where
  "expect c s = (case s of [] \<Rightarrow> None | x # r \<Rightarrow> if x = c then Some r else None)"

definition starts_with :: "16 word \<Rightarrow> jsstring \<Rightarrow> bool" where
  "starts_with c s = (case s of [] \<Rightarrow> False | x # r \<Rightarrow> x = c)"

definition parse_year :: "jsstring \<Rightarrow> (int \<times> jsstring) option" where
  \<comment> \<open>\<^verbatim>\<open>YYYY\<close>, \<^verbatim>\<open>+YYYYYY\<close> or \<^verbatim>\<open>-YYYYYY\<close>; the year \<^verbatim>\<open>-000000\<close> is not in the format\<close>
  "parse_year s =
     (if starts_with 0x2B s then take_digits 6 (tl s)
      else if starts_with 0x2D s then
        do { (y, r) \<leftarrow> take_digits 6 (tl s); if y = 0 then None else Some (- y, r) }
      else take_digits 4 s)"

definition parse_month_day :: "jsstring \<Rightarrow> (int \<times> int \<times> jsstring) option" where
  \<comment> \<open>nothing, \<^verbatim>\<open>-MM\<close> or \<^verbatim>\<open>-MM-DD\<close>; an absent element is \<^verbatim>\<open>01\<close>\<close>
  "parse_month_day s =
     (if starts_with 0x2D s then
        do { (m, r) \<leftarrow> take_digits 2 (tl s);
             if starts_with 0x2D r then
               do { (d, r') \<leftarrow> take_digits 2 (tl r); Some (m, d, r') }
             else Some (m, 1, r) }
      else Some (1, 1, s))"

definition parse_seconds :: "jsstring \<Rightarrow> (int \<times> int \<times> jsstring) option" where
  \<comment> \<open>nothing, \<^verbatim>\<open>:ss\<close> or \<^verbatim>\<open>:ss.sss\<close>; an absent element is zero\<close>
  "parse_seconds s =
     (if starts_with 0x3A s then
        do { (sec, r) \<leftarrow> take_digits 2 (tl s);
             if starts_with 0x2E r then
               do { (ms, r') \<leftarrow> take_digits 3 (tl r); Some (sec, ms, r') }
             else Some (sec, 0, r) }
      else Some (0, 0, s))"

datatype zone = Local | Offset int

definition parse_offset :: "jsstring \<Rightarrow> zone option" where
  \<comment> \<open>the end of the string: nothing, \<^verbatim>\<open>Z\<close>, \<^verbatim>\<open>+HH:mm\<close> or \<^verbatim>\<open>-HH:mm\<close>\<close>
  "parse_offset s =
     (if s = [] then Some Local
      else if s = [0x5A] then Some (Offset 0)
      else if starts_with 0x2B s \<or> starts_with 0x2D s then
        do { (h, r) \<leftarrow> take_digits 2 (tl s);
             r' \<leftarrow> expect 0x3A r;
             (m, r'') \<leftarrow> take_digits 2 r';
             if r'' = [] \<and> h \<le> 23 \<and> m \<le> 59
             then Some (Offset ((if starts_with 0x2D s then - 1 else 1)
                                * (h * msPerHour + m * msPerMinute)))
             else None }
      else None)"

definition parse_time :: "jsstring \<Rightarrow> (int \<times> zone) option" where
  \<comment> \<open>what follows the date: the time within the day and the zone\<close>
  "parse_time s =
     (if s = [] then Some (0, Offset 0)
      else
        do { r \<leftarrow> expect 0x54 s;
             (h, r) \<leftarrow> take_digits 2 r;
             r \<leftarrow> expect 0x3A r;
             (m, r) \<leftarrow> take_digits 2 r;
             (sec, ms, r) \<leftarrow> parse_seconds r;
             z \<leftarrow> parse_offset r;
             if (h \<le> 23 \<and> m \<le> 59 \<and> sec \<le> 59) \<or> (h = 24 \<and> m = 0 \<and> sec = 0 \<and> ms = 0)
             then Some (MakeTime h m sec ms, z)
             else None })"

definition parse_iso :: "jsstring \<Rightarrow> (int \<times> zone) option" where
  \<comment> \<open>an instance of the Date Time String Format: the time its elements name, and its zone\<close>
  "parse_iso s =
     do { (y, r) \<leftarrow> parse_year s;
          (m, d, r) \<leftarrow> parse_month_day r;
          (time, z) \<leftarrow> parse_time r;
          if 1 \<le> m \<and> m \<le> 12 \<and> 1 \<le> d \<and> d \<le> DaysInMonth y (m - 1)
          then Some (MakeDate (MakeDay y (m - 1) d) time, z)
          else None }"

definition Date_parse :: "runtime \<Rightarrow> jsstring \<Rightarrow> int option" where
  "Date_parse rt s =
     (case parse_iso s of
        Some (t, Offset off) \<Rightarrow> Some (t - off)
      | Some (t, Local) \<Rightarrow> Some (t - LocalTZA rt t)
      | None \<Rightarrow> fallback_parse rt s)"

definition new_Date :: "runtime \<Rightarrow> jsstring \<Rightarrow> int option" where
  \<comment> \<open>the time value of \<^verbatim>\<open>new Date(s)\<close> for a string \<open>s\<close>; \<open>None\<close> is NaN\<close>
  "new_Date rt s = Option.bind (Date_parse rt s) TimeClip"

section \<open>The validator\<close>

definition isIsoDateString :: "runtime \<Rightarrow> jsvalue \<Rightarrow> bool" where
  "isIsoDateString rt v =
     (case v of
        JString s \<Rightarrow>
          (case new_Date rt s of
             None \<Rightarrow> False
           | Some t \<Rightarrow> s = toISOString t)
      | _ \<Rightarrow> False)"

record ProductUpdatedDto =
  dto_id :: jsvalue
  dto_name :: jsvalue
  dto_pricePence :: jsvalue
  dto_description :: jsvalue
  dto_updatedAt :: jsvalue

datatype validation = Ok ProductUpdatedDto | Failed "jsstring list"

definition validatePayload :: "runtime \<Rightarrow> jsvalue \<Rightarrow> validation" where
  "validatePayload rt body =
     (let errors = [] in
      if falsy body \<or> typeof body \<noteq> T_object
      then Failed [ustr ''Body must be a JSON object.'']
      else
        let v_id = get_prop body (ustr ''id'');
            v_name = get_prop body (ustr ''name'');
            v_pricePence = get_prop body (ustr ''pricePence'');
            v_description = get_prop body (ustr ''description'');
            v_updatedAt = get_prop body (ustr ''updatedAt'');
            errors =
              (if (case v_id of JString s \<Rightarrow> length (trim s) = 0 | _ \<Rightarrow> True)
               then errors @ [ustr ''id must be a non-empty string''] else errors);
            errors =
              (if (case v_name of JString s \<Rightarrow> length (trim s) = 0 | _ \<Rightarrow> True)
               then errors @ [ustr ''name must be a non-empty string''] else errors);
            errors =
              (if (case v_pricePence of
                     JNumber n \<Rightarrow> \<not> Number_isInteger n \<or> less_zero n
                   | _ \<Rightarrow> True)
               then errors @ [ustr ''pricePence must be a non-negative integer''] else errors);
            errors =
              (if typeof v_description \<noteq> T_string
               then errors @ [ustr ''description must be a string''] else errors);
            errors =
              (if \<not> isIsoDateString rt v_updatedAt
               then errors @ [ustr ''updatedAt must be an ISO 8601 string (Date.toISOString)'']
               else errors)
        in if length errors > 0 then Failed errors
           else Ok \<lparr>dto_id = v_id, dto_name = v_name, dto_pricePence = v_pricePence,
                     dto_description = v_description, dto_updatedAt = v_updatedAt\<rparr>)"

section \<open>The HTTP handler\<close>

text \<open>
  \<^verbatim>\<open>request.json()\<close> either yields the decoded body or throws; the handler's calls of
  \<^verbatim>\<open>context.log\<close> and \<^verbatim>\<open>context.warn\<close> are recorded, in order, in the state it returns.
\<close>

datatype log_call = Log "jsvalue list" | Warn "jsvalue list"

record HttpResponseInit =
  status :: int
  jsonBody :: jsvalue

definition dto_object :: "ProductUpdatedDto \<Rightarrow> jsvalue" where
  "dto_object d =
     JObject [(ustr ''id'', dto_id d), (ustr ''name'', dto_name d),
              (ustr ''pricePence'', dto_pricePence d),
              (ustr ''description'', dto_description d),
              (ustr ''updatedAt'', dto_updatedAt d)]"

definition productUpdatedHttpHandler ::
  "runtime \<Rightarrow> jsvalue + jsvalue \<Rightarrow> log_call list \<Rightarrow> HttpResponseInit \<times> log_call list" where
  \<comment> \<open>the request is \<open>Inr body\<close> when \<^verbatim>\<open>request.json()\<close> returns \<open>body\<close> and \<open>Inl err\<close>
      when it throws \<open>err\<close>\<close>
  "productUpdatedHttpHandler rt request context =
     (let context = context @ [Log [JString (ustr ''Received product-updated event'')]] in
      case request of
        Inl err \<Rightarrow>
          (\<lparr>status = 400,
            jsonBody = JObject [(ustr ''error'', JString (ustr ''Invalid JSON body''))]\<rparr>,
           context @ [Warn [JString (ustr ''Invalid JSON body''), err]])
      | Inr body \<Rightarrow>
          (case validatePayload rt body of
             Failed errors \<Rightarrow>
               (\<lparr>status = 400,
                 jsonBody = JObject [(ustr ''error'', JString (ustr ''ValidationError'')),
                                     (ustr ''details'', JArray (map JString errors))]\<rparr>,
                context @ [Warn [JString (ustr ''Validation failed''),
                                 JArray (map JString errors)]])
           | Ok data \<Rightarrow>
               (\<lparr>status = 202,
                 jsonBody = JObject [(ustr ''message'', JString (ustr ''accepted''))]\<rparr>,
                context @ [Log [JString (ustr ''Product updated:''), dto_object data]])))"

section \<open>Notions used to state the properties\<close>

definition errors_of :: "validation \<Rightarrow> jsstring list" where
  \<comment> \<open>the messages a result carries; an accepted payload carries none\<close>
  "errors_of v = (case v of Ok d \<Rightarrow> [] | Failed es \<Rightarrow> es)"

text \<open>
  The five field rules as the specification words them, in its order 2 to 6: for each
  rule, whether the body violates it, and the message that reports the violation.
\<close>

definition field_rules :: "runtime \<Rightarrow> jsvalue \<Rightarrow> (bool \<times> jsstring) list" where
  "field_rules rt body =
     [(\<not> (case get_prop body (ustr ''id'') of JString s \<Rightarrow> trim s \<noteq> [] | _ \<Rightarrow> False),
       ustr ''id must be a non-empty string''),
      (\<not> (case get_prop body (ustr ''name'') of JString s \<Rightarrow> trim s \<noteq> [] | _ \<Rightarrow> False),
       ustr ''name must be a non-empty string''),
      (\<not> (case get_prop body (ustr ''pricePence'') of
             JNumber (Finite r) \<Rightarrow> frac r = 0 \<and> 0 \<le> r | _ \<Rightarrow> False),
       ustr ''pricePence must be a non-negative integer''),
      (\<not> (case get_prop body (ustr ''description'') of JString s \<Rightarrow> True | _ \<Rightarrow> False),
       ustr ''description must be a string''),
      (\<not> (case get_prop body (ustr ''updatedAt'') of
             JString s \<Rightarrow>
               (case new_Date rt s of Some t \<Rightarrow> toISOString t = s | None \<Rightarrow> False)
           | _ \<Rightarrow> False),
       ustr ''updatedAt must be an ISO 8601 string (Date.toISOString)'')]"

definition field_errors :: "runtime \<Rightarrow> jsvalue \<Rightarrow> jsstring list" where
  \<comment> \<open>one message per violated rule, in the order of the rules\<close>
  "field_errors rt body = map snd (filter fst (field_rules rt body))"

definition utc_runtime :: runtime where
  \<comment> \<open>a runtime in the UTC zone whose parser knows the standard format only\<close>
  "utc_runtime = \<lparr>LocalTZA = (\<lambda>t. 0), fallback_parse = (\<lambda>s. None)\<rparr>"

definition lenient_runtime :: runtime where
  \<comment> \<open>a runtime one hour east of UTC whose parser reads any other string as the epoch\<close>
  "lenient_runtime = \<lparr>LocalTZA = (\<lambda>t. 3600000), fallback_parse = (\<lambda>s. Some 0)\<rparr>"

definition example_payload :: jsvalue where
  \<comment> \<open>\<^verbatim>\<open>{"id":"p1","name":"Widget","pricePence":500,"description":"",
      "updatedAt":"2024-01-01T00:00:00.000Z"}\<close>\<close>
  "example_payload =
     JObject [(ustr ''id'', JString (ustr ''p1'')),
              (ustr ''name'', JString (ustr ''Widget'')),
              (ustr ''pricePence'', JNumber (Finite 500)),
              (ustr ''description'', JString []),
              (ustr ''updatedAt'', JString (ustr ''2024-01-01T00:00:00.000Z''))]"

section \<open>Basic facts about the validator\<close>

lemma msgs_distinct:
  "distinct [ustr ''id must be a non-empty string'', ustr ''name must be a non-empty string'',
     ustr ''pricePence must be a non-negative integer'', ustr ''description must be a string'',
     ustr ''updatedAt must be an ISO 8601 string (Date.toISOString)'']"
  by (simp add: ustr_def)

lemma validatePayload_not_object:
  "falsy body \<or> typeof body \<noteq> T_object \<Longrightarrow>
   validatePayload rt body = Failed [ustr ''Body must be a JSON object.'']"
  by (simp add: validatePayload_def)

lemma id_check_eq:
  "(case v of JString s \<Rightarrow> length (trim s) = 0 | _ \<Rightarrow> True)
   = (\<not> (case v of JString s \<Rightarrow> trim s \<noteq> [] | _ \<Rightarrow> False))"
  by (cases v) simp_all

lemma price_check_eq:
  "(case v of JNumber n \<Rightarrow> \<not> Number_isInteger n \<or> less_zero n | _ \<Rightarrow> True)
   = (\<not> (case v of JNumber (Finite r) \<Rightarrow> frac r = 0 \<and> 0 \<le> r | _ \<Rightarrow> False))"
proof (cases v)
  case (JNumber n)
  then show ?thesis by (cases n) auto
qed simp_all

lemma description_check_eq:
  "(typeof v \<noteq> T_string) = (\<not> (case v of JString s \<Rightarrow> True | _ \<Rightarrow> False))"
  by (cases v) simp_all

lemma updatedAt_check_eq:
  "(\<not> isIsoDateString rt v)
   = (\<not> (case v of
           JString s \<Rightarrow> (case new_Date rt s of Some t \<Rightarrow> toISOString t = s | None \<Rightarrow> False)
         | _ \<Rightarrow> False))"
  unfolding isIsoDateString_def
  by (cases v) (auto split: option.splits)

text \<open>
  Past the guard, the list of errors holds what each of the five checks contributes, in
  the order of the checks, and the payload is accepted when none contributes.
\<close>

lemma validatePayload_fields:
  assumes "\<not> falsy body" "typeof body = T_object"
  shows "validatePayload rt body =
    (if field_errors rt body = [] then
        Ok \<lparr>dto_id = get_prop body (ustr ''id''), dto_name = get_prop body (ustr ''name''),
            dto_pricePence = get_prop body (ustr ''pricePence''),
            dto_description = get_prop body (ustr ''description''),
            dto_updatedAt = get_prop body (ustr ''updatedAt'')\<rparr>
     else Failed (field_errors rt body))"
  using assms
  unfolding validatePayload_def Let_def id_check_eq price_check_eq description_check_eq
    updatedAt_check_eq field_errors_def field_rules_def
  by simp

lemma length_field_errors: "length (field_errors rt body) \<le> 5"
proof -
  have "length (filter fst (field_rules rt body)) \<le> length (field_rules rt body)"
    by (rule length_filter_le)
  then show ?thesis
    by (simp add: field_errors_def field_rules_def)
qed

lemma errors_of_object:
  "errors_of (validatePayload rt (JObject kvs)) = field_errors rt (JObject kvs)"
  by (simp add: validatePayload_fields errors_of_def)

lemma Failed_object_iff:
  "validatePayload rt (JObject kvs) = Failed es
   \<longleftrightarrow> es \<noteq> [] \<and> es = field_errors rt (JObject kvs)"
  by (auto simp add: validatePayload_fields)

lemma id_error_iff:
  "ustr ''id must be a non-empty string'' \<in> set (field_errors rt body)
   \<longleftrightarrow> \<not> (case get_prop body (ustr ''id'') of JString s \<Rightarrow> trim s \<noteq> [] | _ \<Rightarrow> False)"
  using msgs_distinct by (auto simp add: field_errors_def field_rules_def)

lemma name_error_iff:
  "ustr ''name must be a non-empty string'' \<in> set (field_errors rt body)
   \<longleftrightarrow> \<not> (case get_prop body (ustr ''name'') of JString s \<Rightarrow> trim s \<noteq> [] | _ \<Rightarrow> False)"
  using msgs_distinct by (auto simp add: field_errors_def field_rules_def)

lemma pricePence_error_iff:
  "ustr ''pricePence must be a non-negative integer'' \<in> set (field_errors rt body)
   \<longleftrightarrow> \<not> (case get_prop body (ustr ''pricePence'') of
             JNumber (Finite r) \<Rightarrow> frac r = 0 \<and> 0 \<le> r | _ \<Rightarrow> False)"
  using msgs_distinct by (auto simp add: field_errors_def field_rules_def)

lemma updatedAt_error_iff:
  "ustr ''updatedAt must be an ISO 8601 string (Date.toISOString)'' \<in> set (field_errors rt body)
   \<longleftrightarrow> \<not> (case get_prop body (ustr ''updatedAt'') of
             JString s \<Rightarrow>
               (case new_Date rt s of Some t \<Rightarrow> toISOString t = s | None \<Rightarrow> False)
           | _ \<Rightarrow> False)"
  using msgs_distinct by (auto simp add: field_errors_def field_rules_def)

section \<open>The calendar arithmetic of time values\<close>

lemma year_search_correct:
  "DayFromYear y \<le> d \<Longrightarrow>
   DayFromYear (year_search d y) \<le> d \<and> d < DayFromYear (year_search d y + 1)"
proof (induction d y rule: year_search.induct)
  case (1 d y)
  show ?case
  proof (cases "DayFromYear (y + 1) \<le> d")
    case True
    then have "year_search d y = year_search d (y + 1)"
      by (subst year_search.simps) simp
    with 1 True show ?thesis by simp
  next
    case False
    then have "year_search d y = y"
      by (subst year_search.simps) simp
    with 1 False show ?thesis by simp
  qed
qed

lemma year_search_ge: "y \<le> year_search d y"
proof (induction d y rule: year_search.induct)
  case (1 d y)
  show ?case
  proof (cases "DayFromYear (y + 1) \<le> d")
    case True
    then have "year_search d y = year_search d (y + 1)"
      by (subst year_search.simps) simp
    with 1 True show ?thesis by simp
  next
    case False
    then have "year_search d y = y"
      by (subst year_search.simps) simp
    then show ?thesis by simp
  qed
qed

lemma leap_term_nonneg:
  fixes k :: int
  assumes "0 \<le> k"
  shows "(k + 1) div 4 - (k + 69) div 100 + (k + 369) div 400 \<le> k"
proof -
  consider "k = 0" | "k = 1" | "2 \<le> k" using assms by linarith
  then show ?thesis
  proof cases
    case 1 then show ?thesis by simp
  next
    case 2 then show ?thesis by simp
  next
    case 3 then show ?thesis by linarith
  qed
qed

lemma leap_term_neg:
  fixes k :: int
  assumes "k < 0"
  shows "(k + 1) div 4 - (k + 69) div 100 + (k + 369) div 400 \<le> 0"
proof -
  consider "k = -1" | "k = -2" | "k = -3" | "k = -4" | "k = -5" | "k = -6" | "k = -7" | "k \<le> -8"
    using assms by linarith
  then show ?thesis
  proof cases
    case 8 then show ?thesis by linarith
  qed simp_all
qed

lemma DayFromYear_1970_plus:
  "DayFromYear (1970 + k) = 365 * k + ((k + 1) div 4 - (k + 69) div 100 + (k + 369) div 400)"
  by (simp add: DayFromYear_def algebra_simps)

lemma estimate_le:
  "DayFromYear (1970 + (if 0 \<le> d then d div 366 else d div 365)) \<le> d"
proof (cases "0 \<le> d")
  case True
  define k where "k = d div 366"
  have k: "0 \<le> k" "366 * k \<le> d" using True by (simp_all add: k_def pos_imp_zdiv_nonneg_iff)
  have "DayFromYear (1970 + k) \<le> 366 * k"
    using leap_term_nonneg [OF k(1)] by (simp add: DayFromYear_1970_plus)
  with k True show ?thesis by (simp add: k_def)
next
  case False
  define k where "k = d div 365"
  have k: "k < 0" "365 * k \<le> d" using False by (simp_all add: k_def div_neg_pos_less0)
  have "DayFromYear (1970 + k) \<le> 365 * k"
    using leap_term_neg [OF k(1)] by (simp add: DayFromYear_1970_plus)
  with k False show ?thesis by (simp add: k_def)
qed

lemma YearFromTime_bounds:
  "DayFromYear (YearFromTime t) \<le> Day t \<and> Day t < DayFromYear (YearFromTime t + 1)"
  unfolding YearFromTime_def Let_def
  by (rule year_search_correct) (rule estimate_le)

lemma DayWithinYear_bounds:
  "0 \<le> DayWithinYear t \<and> DayWithinYear t < DaysInYear (YearFromTime t)"
  using YearFromTime_bounds [of t] DayFromYear_step [of "YearFromTime t"]
  by (simp add: DayWithinYear_def)

lemma DaysInYear_cases: "DaysInYear y = 365 \<or> DaysInYear y = 366"
  by (simp add: DaysInYear_def)

lemma MonthFromTime_range: "0 \<le> MonthFromTime t \<and> MonthFromTime t \<le> 11"
  by (simp add: MonthFromTime_def Let_def)

lemma DateFromTime_legal:
  "1 \<le> DateFromTime t \<and> DateFromTime t \<le> DaysInMonth (YearFromTime t) (MonthFromTime t)"
proof -
  define d where "d = DayWithinYear t"
  have d: "0 \<le> d" "d < DaysInYear (YearFromTime t)"
    using DayWithinYear_bounds [of t] by (simp_all add: d_def)
  show ?thesis
  proof (cases "DaysInYear (YearFromTime t) = 366")
    case True
    with d show ?thesis
      unfolding DateFromTime_def MonthFromTime_def InLeapYear_def DaysInMonth_def
        DaysBeforeMonth_def Let_def d_def [symmetric]
      by simp
  next
    case False
    with DaysInYear_cases [of "YearFromTime t"] have "DaysInYear (YearFromTime t) = 365"
      by simp
    with d show ?thesis
      unfolding DateFromTime_def MonthFromTime_def InLeapYear_def DaysInMonth_def
        DaysBeforeMonth_def Let_def d_def [symmetric]
      by simp
  qed
qed

lemma MakeDay_fields:
  "MakeDay (YearFromTime t) (MonthFromTime t) (DateFromTime t) = Day t"
proof -
  define d where "d = DayWithinYear t"
  have d: "0 \<le> d" "d < DaysInYear (YearFromTime t)"
    using DayWithinYear_bounds [of t] by (simp_all add: d_def)
  have "DaysBeforeMonth (YearFromTime t) (MonthFromTime t) + DateFromTime t - 1 = d"
    unfolding DateFromTime_def MonthFromTime_def InLeapYear_def
      DaysBeforeMonth_def Let_def d_def [symmetric]
    by simp
  then show ?thesis
    by (simp add: MakeDay_def d_def DayWithinYear_def)
qed

lemma time_fields_range:
  "0 \<le> HourFromTime t \<and> HourFromTime t \<le> 23 \<and> 0 \<le> MinFromTime t \<and> MinFromTime t \<le> 59
   \<and> 0 \<le> SecFromTime t \<and> SecFromTime t \<le> 59 \<and> 0 \<le> msFromTime t \<and> msFromTime t \<le> 999"
proof -
  have "t div msPerHour mod 24 < 24" "t div msPerMinute mod 60 < 60"
    "t div msPerSecond mod 60 < 60" "t mod msPerSecond < 1000"
    by (simp_all add: msPerSecond_def)
  then show ?thesis
    unfolding HourFromTime_def MinFromTime_def SecFromTime_def msFromTime_def
    by (auto simp add: msPerSecond_def)
qed

lemma sum_of_fields:
  fixes h mi s ms m1 m2 m3 :: int
  assumes "m1 = 1000 * s + ms" and "m2 = 60000 * mi + m1" and "m3 = 3600000 * h + m2"
  shows "h * 3600000 + mi * 60000 + s * 1000 + ms = m3"
  using assms by simp

lemma mod_60000: "t mod 60000 = 1000 * (t div 1000 mod 60) + t mod 1000" for t :: int
proof -
  have "t mod (1000 * 60) = 1000 * (t div 1000 mod 60) + t mod 1000"
    by (rule zmod_zmult2_eq) simp
  then show ?thesis by simp
qed

lemma mod_3600000: "t mod 3600000 = 60000 * (t div 60000 mod 60) + t mod 60000" for t :: int
proof -
  have "t mod (60000 * 60) = 60000 * (t div 60000 mod 60) + t mod 60000"
    by (rule zmod_zmult2_eq) simp
  then show ?thesis by simp
qed

lemma mod_86400000: "t mod 86400000 = 3600000 * (t div 3600000 mod 24) + t mod 3600000" for t :: int
proof -
  have "t mod (3600000 * 24) = 3600000 * (t div 3600000 mod 24) + t mod 3600000"
    by (rule zmod_zmult2_eq) simp
  then show ?thesis by simp
qed

lemma MakeTime_fields:
  "MakeTime (HourFromTime t) (MinFromTime t) (SecFromTime t) (msFromTime t) = TimeWithinDay t"
  unfolding MakeTime_def HourFromTime_def MinFromTime_def SecFromTime_def msFromTime_def
    TimeWithinDay_def msPerDay_def msPerHour_def msPerMinute_def msPerSecond_def
  by (rule sum_of_fields [OF mod_60000 mod_3600000 mod_86400000])

lemma MakeDate_fields:
  "MakeDate (MakeDay (YearFromTime t) (MonthFromTime t) (DateFromTime t))
     (MakeTime (HourFromTime t) (MinFromTime t) (SecFromTime t) (msFromTime t)) = t"
  by (simp add: MakeDay_fields MakeTime_fields MakeDate_def Day_def TimeWithinDay_def)

lemma linear_bounds:
  fixes y a b c ra rb rc :: int
  assumes "4 * a + ra = y - 1969" "100 * b + rb = y - 1901" "400 * c + rc = y - 1601"
    and "0 \<le> ra" "ra < 4" "0 \<le> rb" "rb < 100" "0 \<le> rc" "rc < 400"
  shows "400 * (365 * (y - 1970) + a - b + c) \<le> 146097 * y - 287810501
   \<and> 146097 * y - 287811596 \<le> 400 * (365 * (y - 1970) + a - b + c)"
proof -
  have a: "400 * a = 100 * y - 196900 - 100 * ra"
    using assms(1) by simp
  have b: "400 * b = 4 * y - 7604 - 4 * rb"
    using assms(2) by simp
  have c: "400 * c = y - 1601 - rc"
    using assms(3) by simp
  have "400 * (365 * (y - 1970) + a - b + c)
      = 146000 * y - 287620000 + 400 * a - 400 * b + 400 * c"
    by (simp add: algebra_simps)
  also have "\<dots> = 146097 * y - 287810897 - 100 * ra + 4 * rb - rc"
    unfolding a b c by simp
  finally show ?thesis
    using assms(4-9) by simp
qed

lemma DayFromYear_approx:
  "400 * DayFromYear y \<le> 146097 * y - 287810501
   \<and> 146097 * y - 287811596 \<le> 400 * DayFromYear y"
  unfolding DayFromYear_def
  by (rule linear_bounds [of _ "(y - 1969) mod 4" _ _ "(y - 1901) mod 100" _ "(y - 1601) mod 400"])
     simp_all

lemma DayFromYear_lower: "1000000 \<le> y \<Longrightarrow> 100000000 < DayFromYear y"
  using DayFromYear_approx [of y] by linarith

lemma DayFromYear_upper: "y \<le> - 999998 \<Longrightarrow> DayFromYear y < - 100000001"
  using DayFromYear_approx [of y] by linarith

lemma YearFromTime_range:
  assumes "\<bar>t\<bar> \<le> 8640000000000000"
  shows "- 999999 \<le> YearFromTime t \<and> YearFromTime t \<le> 999999"
proof -
  have d: "- 100000000 \<le> Day t" "Day t \<le> 100000000"
    using assms unfolding Day_def msPerDay_def by linarith+
  have "\<not> 1000000 \<le> YearFromTime t"
    using DayFromYear_lower [of "YearFromTime t"] YearFromTime_bounds [of t] d by linarith
  moreover have "\<not> YearFromTime t + 1 \<le> - 999998"
    using DayFromYear_upper [of "YearFromTime t + 1"] YearFromTime_bounds [of t] d by linarith
  ultimately show ?thesis by linarith
qed

section \<open>Parsing what toISOString writes\<close>

lemma digit_char_props:
  assumes "0 \<le> d" "d \<le> 9"
  shows "is_digit (digit_char d)" and "digit_value (digit_char d) = d"
proof -
  have "uint (word_of_int (48 + d) :: 16 word) = take_bit LENGTH(16) (48 + d)"
    by (rule uint_word_of_int_eq)
  also have "\<dots> = 48 + d"
    using assms by (intro take_bit_int_eq_self) simp_all
  finally have "uint (word_of_int (48 + d) :: 16 word) = 48 + d" .
  then show "is_digit (digit_char d)" and "digit_value (digit_char d) = d"
    using assms by (simp_all add: is_digit_def digit_char_def digit_value_def word_le_def)
qed

lemma length_pad: "length (pad n v) = n"
  by (induction n arbitrary: v) simp_all

lemma pad_all_digits: "list_all is_digit (pad n v)"
proof (induction n arbitrary: v)
  case 0
  show ?case by simp
next
  case (Suc n)
  have "0 \<le> v mod 10" "v mod 10 \<le> 9"
    by simp_all
  then show ?case
    using Suc by (simp add: digit_char_props)
qed

lemma number_of_digits_snoc:
  "number_of_digits (ds @ [c]) = 10 * number_of_digits ds + digit_value c"
  by (simp add: number_of_digits_def)

lemma number_of_digits_pad: "number_of_digits (pad n v) = v mod 10 ^ n"
proof (induction n arbitrary: v)
  case 0
  show ?case by (simp add: number_of_digits_def)
next
  case (Suc n)
  have d: "0 \<le> v mod 10" "v mod 10 \<le> 9"
    by simp_all
  have "v mod (10 * 10 ^ n) = 10 * (v div 10 mod 10 ^ n) + v mod 10"
    by (rule zmod_zmult2_eq) simp
  then show ?case
    using Suc [of "v div 10"] d by (simp add: number_of_digits_snoc digit_char_props)
qed

lemma take_digits_pad:
  assumes "0 \<le> v" "v < 10 ^ n"
  shows "take_digits n (pad n v @ r) = Some (v, r)"
  using assms by (simp add: take_digits_def length_pad pad_all_digits number_of_digits_pad)

lemma starts_with_pad:
  assumes "0 < n" "\<not> is_digit c"
  shows "\<not> starts_with c (pad n v @ r)"
proof -
  from assms(1) have "pad n v \<noteq> []"
    using length_pad [of n v] by auto
  then obtain x xs where p: "pad n v = x # xs"
    by (cases "pad n v") auto
  with pad_all_digits [of n v] have "is_digit x"
    by simp
  with assms(2) p show ?thesis
    by (auto simp add: starts_with_def)
qed

lemma starts_with_Cons [simp]: "starts_with c (x # xs) = (x = c)"
  by (simp add: starts_with_def)

lemma expect_Cons [simp]: "expect c (c # xs) = Some xs"
  by (simp add: expect_def)

lemma not_digit_signs: "\<not> is_digit 0x2B" "\<not> is_digit 0x2D"
  by (simp_all add: is_digit_def)

lemma parse_year_year_string:
  assumes "- 999999 \<le> y" "y \<le> 999999"
  shows "parse_year (year_string y @ r) = Some (y, r)"
proof -
  consider "0 \<le> y \<and> y \<le> 9999" | "y < 0" | "9999 < y" by linarith
  then show ?thesis
  proof cases
    case 1
    then have "take_digits 4 (pad 4 y @ r) = Some (y, r)"
      by (intro take_digits_pad) simp_all
    with 1 show ?thesis
      by (simp add: parse_year_def year_string_def starts_with_pad not_digit_signs)
  next
    case 2
    with assms have "take_digits 6 (pad 6 \<bar>y\<bar> @ r) = Some (\<bar>y\<bar>, r)"
      by (intro take_digits_pad) simp_all
    with 2 show ?thesis
      by (simp add: parse_year_def year_string_def)
  next
    case 3
    with assms have "take_digits 6 (pad 6 \<bar>y\<bar> @ r) = Some (\<bar>y\<bar>, r)"
      by (intro take_digits_pad) simp_all
    with 3 show ?thesis
      by (simp add: parse_year_def year_string_def)
  qed
qed

lemma parse_month_day_pads:
  assumes "0 \<le> m" "m \<le> 99" "0 \<le> d" "d \<le> 99"
  shows "parse_month_day (0x2D # pad 2 m @ 0x2D # pad 2 d @ r) = Some (m, d, r)"
proof -
  have "take_digits 2 (pad 2 m @ 0x2D # pad 2 d @ r) = Some (m, 0x2D # pad 2 d @ r)"
    using assms by (intro take_digits_pad) simp_all
  moreover have "take_digits 2 (pad 2 d @ r) = Some (d, r)"
    using assms by (intro take_digits_pad) simp_all
  ultimately show ?thesis
    by (simp add: parse_month_day_def)
qed

lemma parse_seconds_pads:
  assumes "0 \<le> s" "s \<le> 99" "0 \<le> ms" "ms \<le> 999"
  shows "parse_seconds (0x3A # pad 2 s @ 0x2E # pad 3 ms @ r) = Some (s, ms, r)"
proof -
  have "take_digits 2 (pad 2 s @ 0x2E # pad 3 ms @ r) = Some (s, 0x2E # pad 3 ms @ r)"
    using assms by (intro take_digits_pad) simp_all
  moreover have "take_digits 3 (pad 3 ms @ r) = Some (ms, r)"
    using assms by (intro take_digits_pad) simp_all
  ultimately show ?thesis
    by (simp add: parse_seconds_def)
qed

lemma parse_time_pads:
  assumes "0 \<le> h" "h \<le> 23" "0 \<le> m" "m \<le> 59" "0 \<le> s" "s \<le> 59" "0 \<le> ms" "ms \<le> 999"
  shows "parse_time (0x54 # pad 2 h @ 0x3A # pad 2 m @ 0x3A # pad 2 s @ 0x2E # pad 3 ms @ [0x5A])
         = Some (MakeTime h m s ms, Offset 0)"
proof -
  have "take_digits 2 (pad 2 h @ 0x3A # pad 2 m @ 0x3A # pad 2 s @ 0x2E # pad 3 ms @ [0x5A])
      = Some (h, 0x3A # pad 2 m @ 0x3A # pad 2 s @ 0x2E # pad 3 ms @ [0x5A])"
    using assms by (intro take_digits_pad) simp_all
  moreover have "take_digits 2 (pad 2 m @ 0x3A # pad 2 s @ 0x2E # pad 3 ms @ [0x5A])
      = Some (m, 0x3A # pad 2 s @ 0x2E # pad 3 ms @ [0x5A])"
    using assms by (intro take_digits_pad) simp_all
  moreover have "parse_seconds (0x3A # pad 2 s @ 0x2E # pad 3 ms @ [0x5A]) = Some (s, ms, [0x5A])"
    using assms by (intro parse_seconds_pads) simp_all
  moreover have "parse_offset [0x5A] = Some (Offset 0)"
    by (simp add: parse_offset_def)
  ultimately show ?thesis
    using assms by (simp add: parse_time_def)
qed

lemma parse_iso_fields:
  assumes "- 999999 \<le> y" "y \<le> 999999" "0 \<le> mo" "mo \<le> 11" "1 \<le> d" "d \<le> DaysInMonth y mo"
    and "d \<le> 99"
    and "0 \<le> h" "h \<le> 23" "0 \<le> m" "m \<le> 59" "0 \<le> s" "s \<le> 59" "0 \<le> ms" "ms \<le> 999"
  shows "parse_iso (year_string y @ [0x2D] @ pad 2 (mo + 1) @ [0x2D] @ pad 2 d @ [0x54]
           @ pad 2 h @ [0x3A] @ pad 2 m @ [0x3A] @ pad 2 s @ [0x2E] @ pad 3 ms @ [0x5A])
         = Some (MakeDate (MakeDay y mo d) (MakeTime h m s ms), Offset 0)"
proof -
  let ?time = "0x54 # pad 2 h @ 0x3A # pad 2 m @ 0x3A # pad 2 s @ 0x2E # pad 3 ms @ [0x5A]"
  let ?date = "0x2D # pad 2 (mo + 1) @ 0x2D # pad 2 d @ ?time"
  have "parse_year (year_string y @ ?date) = Some (y, ?date)"
    using assms(1,2) by (rule parse_year_year_string)
  moreover have "parse_month_day ?date = Some (mo + 1, d, ?time)"
    using assms by (intro parse_month_day_pads) simp_all
  moreover have "parse_time ?time = Some (MakeTime h m s ms, Offset 0)"
    using assms by (intro parse_time_pads) simp_all
  ultimately show ?thesis
    using assms by (simp add: parse_iso_def)
qed

subsection \<open>The round trip through Date\<close>

lemma DaysInMonth_le_31: "DaysInMonth y m \<le> 31"
  by (simp add: DaysInMonth_def DaysBeforeMonth_def Let_def)

lemma parse_iso_toISOString:
  assumes "\<bar>t\<bar> \<le> 8640000000000000"
  shows "parse_iso (toISOString t) = Some (t, Offset 0)"
proof -
  have y: "- 999999 \<le> YearFromTime t" "YearFromTime t \<le> 999999"
    using YearFromTime_range [OF assms] by simp_all
  have m: "0 \<le> MonthFromTime t" "MonthFromTime t \<le> 11"
    using MonthFromTime_range [of t] by simp_all
  have d: "1 \<le> DateFromTime t" "DateFromTime t \<le> DaysInMonth (YearFromTime t) (MonthFromTime t)"
    using DateFromTime_legal [of t] by simp_all
  have d99: "DateFromTime t \<le> 99"
    using d(2) DaysInMonth_le_31 [of "YearFromTime t" "MonthFromTime t"] by linarith
  have tm: "0 \<le> HourFromTime t" "HourFromTime t \<le> 23" "0 \<le> MinFromTime t"
    "MinFromTime t \<le> 59" "0 \<le> SecFromTime t" "SecFromTime t \<le> 59" "0 \<le> msFromTime t"
    "msFromTime t \<le> 999"
    using time_fields_range [of t] by simp_all
  show ?thesis
    unfolding toISOString_def parse_iso_fields [OF y m d d99 tm] MakeDate_fields ..
qed

lemma new_Date_toISOString:
  assumes "\<bar>t\<bar> \<le> 8640000000000000"
  shows "new_Date rt (toISOString t) = Some t"
  using assms by (simp add: new_Date_def Date_parse_def parse_iso_toISOString TimeClip_def)

lemma new_Date_range: "new_Date rt s = Some t \<Longrightarrow> \<bar>t\<bar> \<le> 8640000000000000"
  by (auto simp add: new_Date_def TimeClip_def Option.bind_eq_Some_conv split: if_splits)

text \<open>
  A string passes \<^verbatim>\<open>isIsoDateString\<close> exactly when it is what \<^verbatim>\<open>toISOString\<close> writes for
  some time value in the range of Date, whatever the runtime.
\<close>

lemma isIsoDateString_iff:
  "isIsoDateString rt (JString s) \<longleftrightarrow> (\<exists>t. \<bar>t\<bar> \<le> 8640000000000000 \<and> s = toISOString t)"
proof
  assume "isIsoDateString rt (JString s)"
  then obtain t where "new_Date rt s = Some t" "s = toISOString t"
    by (auto simp add: isIsoDateString_def split: option.splits)
  then show "\<exists>t. \<bar>t\<bar> \<le> 8640000000000000 \<and> s = toISOString t"
    using new_Date_range by blast
next
  assume "\<exists>t. \<bar>t\<bar> \<le> 8640000000000000 \<and> s = toISOString t"
  then obtain t where "\<bar>t\<bar> \<le> 8640000000000000" "s = toISOString t"
    by blast
  then show "isIsoDateString rt (JString s)"
    by (simp add: isIsoDateString_def new_Date_toISOString)
qed

lemma isIsoDateString_runtime: "isIsoDateString rt v = isIsoDateString rt' v"
proof (cases v)
  case (JString s)
  then show ?thesis by (simp add: isIsoDateString_iff)
qed (simp_all add: isIsoDateString_def)

lemma length_toISOString: "24 \<le> length (toISOString t)"
  by (simp add: toISOString_def year_string_def length_pad)

section \<open>The Date built-in on the strings of the examples\<close>

lemmas parse_defs =
  parse_iso_def parse_year_def parse_month_day_def parse_time_def parse_seconds_def
  parse_offset_def take_digits_def starts_with_def expect_def is_digit_def
  number_of_digits_def digit_value_def DaysInMonth_def DaysBeforeMonth_def DaysInYear_def
  MakeDay_def MakeDate_def MakeTime_def DayFromYear_def
  msPerDay_def msPerHour_def msPerMinute_def msPerSecond_def

lemma new_Date_date_only: "new_Date rt (ustr ''2024-01-01'') = Some 1704067200000"
  by (simp add: new_Date_def Date_parse_def TimeClip_def ustr_def parse_defs)

lemma new_Date_canonical: "new_Date rt (ustr ''2024-01-01T00:00:00.000Z'') = Some 1704067200000"
  by (simp add: new_Date_def Date_parse_def TimeClip_def ustr_def parse_defs)

lemma toISOString_canonical: "toISOString 1704067200000 = ustr ''2024-01-01T00:00:00.000Z''"
  by code_simp

lemma isIsoDateString_date_only: "\<not> isIsoDateString rt (JString (ustr ''2024-01-01''))"
  by (simp add: isIsoDateString_def new_Date_date_only toISOString_canonical)
     (simp add: ustr_def)

lemma isIsoDateString_canonical: "isIsoDateString rt (JString (ustr ''2024-01-01T00:00:00.000Z''))"
  by (simp add: isIsoDateString_def new_Date_canonical toISOString_canonical)

section \<open>Properties of the validator and of the handler\<close>

text \<open>
  C10. When the \<^verbatim>\<open>pricePence\<close> property of an object is NaN, Infinity or -Infinity, the
  object is rejected and the list of errors holds
  "pricePence must be a non-negative integer": such a value has type number but is not
  an integer.
\<close>

theorem pricePence_non_finite_rejected:
  assumes "map_of kvs (ustr ''pricePence'') = Some (JNumber n)"
    and "n = NaN \<or> n = PosInfinity \<or> n = NegInfinity"
  shows "\<exists>es. validatePayload rt (JObject kvs) = Failed es
            \<and> ustr ''pricePence must be a non-negative integer'' \<in> set es"
proof -
  from assms have "ustr ''pricePence must be a non-negative integer''
      \<in> set (field_errors rt (JObject kvs))"
    unfolding pricePence_error_iff by auto
  then show ?thesis
    unfolding Failed_object_iff by auto
qed

theorem pricePence_non_finite_rejected_witness:
  "map_of [(ustr ''pricePence'', JNumber PosInfinity)] (ustr ''pricePence'')
     = Some (JNumber PosInfinity)
   \<and> (PosInfinity = NaN \<or> PosInfinity = PosInfinity \<or> PosInfinity = NegInfinity)
   \<and> (\<exists>es. validatePayload utc_runtime (JObject [(ustr ''pricePence'', JNumber PosInfinity)])
             = Failed es
           \<and> ustr ''pricePence must be a non-negative integer'' \<in> set es)"
proof -
  have h1: "map_of [(ustr ''pricePence'', JNumber PosInfinity)] (ustr ''pricePence'')
     = Some (JNumber PosInfinity)"
    by simp
  have h2: "PosInfinity = NaN \<or> PosInfinity = PosInfinity \<or> PosInfinity = NegInfinity"
    by simp
  show ?thesis
    using h1 h2 pricePence_non_finite_rejected [OF h1 h2, of utc_runtime] by blast
qed


text \<open>
  C1. A well-formed ProductUpdated object (\<^verbatim>\<open>id\<close> and \<^verbatim>\<open>name\<close> strings that are not empty
  after trimming, \<^verbatim>\<open>pricePence\<close> an integer number that is at least 0, \<^verbatim>\<open>description\<close> a
  string, \<^verbatim>\<open>updatedAt\<close> a string that parses to a valid time value whose serialization is
  the string itself) is accepted, and the five fields of the result are the five values of
  the input, untrimmed and unchanged (the identifier \<^verbatim>\<open>" p1 "\<close> is stored with its
  spaces).
\<close>

theorem validatePayload_accepts_well_formed:
  assumes "map_of kvs (ustr ''id'') = Some (JString i)" and "trim i \<noteq> []"
    and "map_of kvs (ustr ''name'') = Some (JString n)" and "trim n \<noteq> []"
    and "map_of kvs (ustr ''pricePence'') = Some (JNumber (Finite r))"
    and "r \<in> \<int>" and "0 \<le> r"
    and "map_of kvs (ustr ''description'') = Some (JString d)"
    and "map_of kvs (ustr ''updatedAt'') = Some (JString u)"
    and "new_Date rt u = Some t" and "toISOString t = u"
  shows "validatePayload rt (JObject kvs) =
           Ok \<lparr>dto_id = JString i, dto_name = JString n,
               dto_pricePence = JNumber (Finite r), dto_description = JString d,
               dto_updatedAt = JString u\<rparr>"
proof -
  have price: "Number_isInteger (Finite r)" "\<not> less_zero (Finite r)"
    using assms(6,7) by (simp_all add: frac_eq_0_iff)
  have iso: "isIsoDateString rt (JString u)"
    using assms(10,11) by (simp add: isIsoDateString_def)
  have "field_errors rt (JObject kvs) = []"
    using assms(1-5,8,9) price iso
    by (simp add: field_errors_def field_rules_def isIsoDateString_def split: option.splits)
  then show ?thesis
    using assms(1,3,5,8,9) by (simp add: validatePayload_fields)
qed

theorem validatePayload_accepts_well_formed_witness:
  "validatePayload utc_runtime
     (JObject [(ustr ''id'', JString (ustr '' p1 '')),
               (ustr ''name'', JString (ustr ''Widget'')),
               (ustr ''pricePence'', JNumber (Finite 500)),
               (ustr ''description'', JString []),
               (ustr ''updatedAt'', JString (ustr ''2024-01-01T00:00:00.000Z''))]) =
     Ok \<lparr>dto_id = JString (ustr '' p1 ''), dto_name = JString (ustr ''Widget''),
         dto_pricePence = JNumber (Finite 500), dto_description = JString [],
         dto_updatedAt = JString (ustr ''2024-01-01T00:00:00.000Z'')\<rparr>"
proof -
  let ?kvs = "[(ustr ''id'', JString (ustr '' p1 '')),
              (ustr ''name'', JString (ustr ''Widget'')),
              (ustr ''pricePence'', JNumber (Finite 500)),
              (ustr ''description'', JString []),
              (ustr ''updatedAt'', JString (ustr ''2024-01-01T00:00:00.000Z''))]"
  have h1: "map_of ?kvs (ustr ''id'') = Some (JString (ustr '' p1 ''))"
    by (simp add: ustr_def)
  have h2: "trim (ustr '' p1 '') \<noteq> []"
    by (simp add: ustr_def trim_def is_white_space_def)
  have h3: "map_of ?kvs (ustr ''name'') = Some (JString (ustr ''Widget''))"
    by (simp add: ustr_def)
  have h4: "trim (ustr ''Widget'') \<noteq> []"
    by (simp add: ustr_def trim_def is_white_space_def)
  have h5: "map_of ?kvs (ustr ''pricePence'') = Some (JNumber (Finite 500))"
    by (simp add: ustr_def)
  have h6: "(500::rat) \<in> \<int>" and h7: "(0::rat) \<le> 500"
    by simp_all
  have h8: "map_of ?kvs (ustr ''description'') = Some (JString [])"
    by (simp add: ustr_def)
  have h9: "map_of ?kvs (ustr ''updatedAt'') = Some (JString (ustr ''2024-01-01T00:00:00.000Z''))"
    by (simp add: ustr_def)
  have h10: "new_Date utc_runtime (ustr ''2024-01-01T00:00:00.000Z'') = Some 1704067200000"
    by (rule new_Date_canonical)
  have h11: "toISOString 1704067200000 = ustr ''2024-01-01T00:00:00.000Z''"
    by (rule toISOString_canonical)
  show ?thesis
    by (rule validatePayload_accepts_well_formed [OF h1 h2 h3 h4 h5 h6 h7 h8 h9 h10 h11])
qed

text \<open>
  C2. The claim is that every input that is not a non-null object, an array included, is
  rejected with the single message "Body must be a JSON object.". The guard tests
  \<^verbatim>\<open>typeof body !== 'object'\<close>, and the type of an array is \<^verbatim>\<open>'object'\<close>: an array passes
  the guard, all five properties read from it are undefined, and it is rejected with the
  five messages of the field checks instead.
\<close>

theorem validatePayload_array_gets_field_errors:
  "validatePayload rt (JArray xs) =
     Failed [ustr ''id must be a non-empty string'', ustr ''name must be a non-empty string'',
             ustr ''pricePence must be a non-negative integer'',
             ustr ''description must be a string'',
             ustr ''updatedAt must be an ISO 8601 string (Date.toISOString)'']"
  by (simp add: validatePayload_fields field_errors_def field_rules_def)

theorem validatePayload_array_gets_field_errors_witness:
  "validatePayload utc_runtime (JArray [JNumber (Finite 1)]) =
     Failed [ustr ''id must be a non-empty string'', ustr ''name must be a non-empty string'',
             ustr ''pricePence must be a non-negative integer'',
             ustr ''description must be a string'',
             ustr ''updatedAt must be an ISO 8601 string (Date.toISOString)'']"
  by (rule validatePayload_array_gets_field_errors [of utc_runtime "[JNumber (Finite 1)]"])

text \<open>
  Every other value that is not an object (undefined, null, a boolean, a number, a
  string) does get the single message.
\<close>

lemma validatePayload_primitive:
  assumes "\<forall>kvs. body \<noteq> JObject kvs" and "\<forall>xs. body \<noteq> JArray xs"
  shows "validatePayload rt body = Failed [ustr ''Body must be a JSON object.'']"
proof (cases body)
  case (JObject kvs)
  with assms(1) show ?thesis by simp
next
  case (JArray xs)
  with assms(2) show ?thesis by simp
qed (simp_all add: validatePayload_not_object)

text \<open>
  C9. The validator returns exactly one of the two kinds of result; a rejection carries
  at least one message and at most five.
\<close>

theorem validatePayload_result_shape:
  "((\<exists>d. validatePayload rt body = Ok d) \<noteq> (\<exists>es. validatePayload rt body = Failed es))
   \<and> (\<forall>es. validatePayload rt body = Failed es \<longrightarrow> es \<noteq> [] \<and> length es \<le> 5)"
proof (rule conjI)
  show "(\<exists>d. validatePayload rt body = Ok d) \<noteq> (\<exists>es. validatePayload rt body = Failed es)"
    by (cases "validatePayload rt body") simp_all
next
  show "\<forall>es. validatePayload rt body = Failed es \<longrightarrow> es \<noteq> [] \<and> length es \<le> 5"
  proof (intro allI impI)
    fix es
    assume failed: "validatePayload rt body = Failed es"
    show "es \<noteq> [] \<and> length es \<le> 5"
    proof (cases "falsy body \<or> typeof body \<noteq> T_object")
      case True
      with failed show ?thesis
        by (auto simp add: validatePayload_not_object)
    next
      case False
      with failed have "es \<noteq> []" and "es = field_errors rt body"
        by (auto simp add: validatePayload_fields split: if_splits)
      then show ?thesis
        using length_field_errors [of rt body] by simp
    qed
  qed
qed

theorem validatePayload_result_shape_witness:
  "validatePayload utc_runtime JNull = Failed [ustr ''Body must be a JSON object.'']
   \<and> [ustr ''Body must be a JSON object.''] \<noteq> []
   \<and> length [ustr ''Body must be a JSON object.''] \<le> 5"
proof -
  have h: "validatePayload utc_runtime JNull = Failed [ustr ''Body must be a JSON object.'']"
    by (simp add: validatePayload_def)
  from validatePayload_result_shape [of utc_runtime JNull] h
  have "[ustr ''Body must be a JSON object.''] \<noteq> []
        \<and> length [ustr ''Body must be a JSON object.''] \<le> 5"
    by blast
  with h show ?thesis by blast
qed

text \<open>
  C4. For an object, the \<^verbatim>\<open>updatedAt\<close> check passes exactly when the property is a string
  that parses to a valid time value whose serialization by \<^verbatim>\<open>toISOString\<close> is the string
  itself. With \<^verbatim>\<open>"2024-01-01"\<close> the object is rejected and the \<^verbatim>\<open>updatedAt\<close> message is
  among the errors; with \<^verbatim>\<open>"2024-01-01T00:00:00.000Z"\<close> that message is not produced.
\<close>

theorem updatedAt_accepted_iff_canonical:
  "(ustr ''updatedAt must be an ISO 8601 string (Date.toISOString)''
      \<notin> set (errors_of (validatePayload rt (JObject kvs)))
    \<longleftrightarrow> (\<exists>s t. map_of kvs (ustr ''updatedAt'') = Some (JString s)
              \<and> new_Date rt s = Some t \<and> toISOString t = s))
   \<and> (map_of kvs (ustr ''updatedAt'') = Some (JString (ustr ''2024-01-01''))
      \<longrightarrow> (\<exists>es. validatePayload rt (JObject kvs) = Failed es
                \<and> ustr ''updatedAt must be an ISO 8601 string (Date.toISOString)'' \<in> set es))
   \<and> (map_of kvs (ustr ''updatedAt'') = Some (JString (ustr ''2024-01-01T00:00:00.000Z''))
      \<longrightarrow> ustr ''updatedAt must be an ISO 8601 string (Date.toISOString)''
            \<notin> set (errors_of (validatePayload rt (JObject kvs))))"
proof (intro conjI impI)
  show "ustr ''updatedAt must be an ISO 8601 string (Date.toISOString)''
      \<notin> set (errors_of (validatePayload rt (JObject kvs)))
    \<longleftrightarrow> (\<exists>s t. map_of kvs (ustr ''updatedAt'') = Some (JString s)
              \<and> new_Date rt s = Some t \<and> toISOString t = s)"
    unfolding errors_of_object updatedAt_error_iff
    by (auto split: option.splits jsvalue.splits)
next
  assume "map_of kvs (ustr ''updatedAt'') = Some (JString (ustr ''2024-01-01''))"
  then have "ustr ''updatedAt must be an ISO 8601 string (Date.toISOString)''
      \<in> set (field_errors rt (JObject kvs))"
    unfolding updatedAt_error_iff
    using isIsoDateString_date_only [of rt]
    by (simp add: isIsoDateString_def split: option.splits)
  then show "\<exists>es. validatePayload rt (JObject kvs) = Failed es
                \<and> ustr ''updatedAt must be an ISO 8601 string (Date.toISOString)'' \<in> set es"
    unfolding Failed_object_iff by auto
next
  assume "map_of kvs (ustr ''updatedAt'') = Some (JString (ustr ''2024-01-01T00:00:00.000Z''))"
  then show "ustr ''updatedAt must be an ISO 8601 string (Date.toISOString)''
            \<notin> set (errors_of (validatePayload rt (JObject kvs)))"
    unfolding errors_of_object updatedAt_error_iff
    by (simp add: new_Date_canonical toISOString_canonical)
qed

theorem updatedAt_accepted_iff_canonical_witness:
  "(\<exists>es. validatePayload utc_runtime
            (JObject [(ustr ''updatedAt'', JString (ustr ''2024-01-01''))]) = Failed es
         \<and> ustr ''updatedAt must be an ISO 8601 string (Date.toISOString)'' \<in> set es)
   \<and> ustr ''updatedAt must be an ISO 8601 string (Date.toISOString)''
        \<notin> set (errors_of (validatePayload utc_runtime
                  (JObject [(ustr ''updatedAt'', JString (ustr ''2024-01-01T00:00:00.000Z''))])))"
proof -
  have h1: "map_of [(ustr ''updatedAt'', JString (ustr ''2024-01-01''))] (ustr ''updatedAt'')
      = Some (JString (ustr ''2024-01-01''))"
    by simp
  have h2: "map_of [(ustr ''updatedAt'', JString (ustr ''2024-01-01T00:00:00.000Z''))]
       (ustr ''updatedAt'') = Some (JString (ustr ''2024-01-01T00:00:00.000Z''))"
    by simp
  show ?thesis
    using h1 h2
      updatedAt_accepted_iff_canonical
        [of utc_runtime "[(ustr ''updatedAt'', JString (ustr ''2024-01-01''))]"]
      updatedAt_accepted_iff_canonical
        [of utc_runtime "[(ustr ''updatedAt'', JString (ustr ''2024-01-01T00:00:00.000Z''))]"]
    by blast
qed

text \<open>
  C6. For an object, the message "pricePence must be a non-negative integer" is among the
  errors exactly when \<^verbatim>\<open>pricePence\<close> is not a number that is an integer and at least 0.
  The values -1 and 3.5 (the rational 7/2) produce the message, the value 0 does not.
\<close>

theorem pricePence_error_iff_not_nonneg_integer:
  "(ustr ''pricePence must be a non-negative integer''
      \<in> set (errors_of (validatePayload rt (JObject kvs)))
    \<longleftrightarrow> \<not> (\<exists>r. map_of kvs (ustr ''pricePence'') = Some (JNumber (Finite r))
               \<and> r \<in> \<int> \<and> 0 \<le> r))
   \<and> (map_of kvs (ustr ''pricePence'') = Some (JNumber (Finite (- 1)))
      \<longrightarrow> (\<exists>es. validatePayload rt (JObject kvs) = Failed es
                \<and> ustr ''pricePence must be a non-negative integer'' \<in> set es))
   \<and> (map_of kvs (ustr ''pricePence'') = Some (JNumber (Finite (7 / 2)))
      \<longrightarrow> (\<exists>es. validatePayload rt (JObject kvs) = Failed es
                \<and> ustr ''pricePence must be a non-negative integer'' \<in> set es))
   \<and> (map_of kvs (ustr ''pricePence'') = Some (JNumber (Finite 0))
      \<longrightarrow> ustr ''pricePence must be a non-negative integer''
            \<notin> set (errors_of (validatePayload rt (JObject kvs))))"
proof (intro conjI impI)
  show "ustr ''pricePence must be a non-negative integer''
      \<in> set (errors_of (validatePayload rt (JObject kvs)))
    \<longleftrightarrow> \<not> (\<exists>r. map_of kvs (ustr ''pricePence'') = Some (JNumber (Finite r))
               \<and> r \<in> \<int> \<and> 0 \<le> r)"
    unfolding errors_of_object pricePence_error_iff
    by (auto simp add: frac_eq_0_iff split: option.splits jsvalue.splits jsnumber.splits)
next
  assume "map_of kvs (ustr ''pricePence'') = Some (JNumber (Finite (- 1)))"
  then have "ustr ''pricePence must be a non-negative integer''
      \<in> set (field_errors rt (JObject kvs))"
    unfolding pricePence_error_iff by simp
  then show "\<exists>es. validatePayload rt (JObject kvs) = Failed es
                \<and> ustr ''pricePence must be a non-negative integer'' \<in> set es"
    unfolding Failed_object_iff by auto
next
  assume "map_of kvs (ustr ''pricePence'') = Some (JNumber (Finite (7 / 2)))"
  then have "ustr ''pricePence must be a non-negative integer''
      \<in> set (field_errors rt (JObject kvs))"
    unfolding pricePence_error_iff by simp
  then show "\<exists>es. validatePayload rt (JObject kvs) = Failed es
                \<and> ustr ''pricePence must be a non-negative integer'' \<in> set es"
    unfolding Failed_object_iff by auto
next
  assume "map_of kvs (ustr ''pricePence'') = Some (JNumber (Finite 0))"
  then show "ustr ''pricePence must be a non-negative integer''
            \<notin> set (errors_of (validatePayload rt (JObject kvs)))"
    unfolding errors_of_object pricePence_error_iff by simp
qed

theorem pricePence_error_iff_not_nonneg_integer_witness:
  "(\<exists>es. validatePayload utc_runtime
            (JObject [(ustr ''pricePence'', JNumber (Finite (- 1)))]) = Failed es
         \<and> ustr ''pricePence must be a non-negative integer'' \<in> set es)
   \<and> (\<exists>es. validatePayload utc_runtime
            (JObject [(ustr ''pricePence'', JNumber (Finite (7 / 2)))]) = Failed es
         \<and> ustr ''pricePence must be a non-negative integer'' \<in> set es)
   \<and> ustr ''pricePence must be a non-negative integer''
        \<notin> set (errors_of (validatePayload utc_runtime
                  (JObject [(ustr ''pricePence'', JNumber (Finite 0))])))"
proof -
  have h1: "map_of [(ustr ''pricePence'', JNumber (Finite (- 1)))] (ustr ''pricePence'')
      = Some (JNumber (Finite (- 1)))"
    by simp
  have h2: "map_of [(ustr ''pricePence'', JNumber (Finite (7 / 2)))] (ustr ''pricePence'')
      = Some (JNumber (Finite (7 / 2)))"
    by simp
  have h3: "map_of [(ustr ''pricePence'', JNumber (Finite 0))] (ustr ''pricePence'')
      = Some (JNumber (Finite 0))"
    by simp
  show ?thesis
    using h1 h2 h3
      pricePence_error_iff_not_nonneg_integer
        [of utc_runtime "[(ustr ''pricePence'', JNumber (Finite (- 1)))]"]
      pricePence_error_iff_not_nonneg_integer
        [of utc_runtime "[(ustr ''pricePence'', JNumber (Finite (7 / 2)))]"]
      pricePence_error_iff_not_nonneg_integer
        [of utc_runtime "[(ustr ''pricePence'', JNumber (Finite 0))]"]
    by blast
qed

text \<open>
  C7. An object whose \<^verbatim>\<open>id\<close> is missing, is not a string, or is a string that is empty
  after trimming is rejected, and "id must be a non-empty string" is among the errors;
  the same holds of \<^verbatim>\<open>name\<close> and its message.
\<close>

theorem blank_id_or_name_rejected:
  "(map_of kvs (ustr ''id'') = None
      \<or> (\<forall>s. map_of kvs (ustr ''id'') \<noteq> Some (JString s))
      \<or> (\<exists>s. map_of kvs (ustr ''id'') = Some (JString s) \<and> trim s = [])
    \<longrightarrow> (\<exists>es. validatePayload rt (JObject kvs) = Failed es
              \<and> ustr ''id must be a non-empty string'' \<in> set es))
   \<and> (map_of kvs (ustr ''name'') = None
      \<or> (\<forall>s. map_of kvs (ustr ''name'') \<noteq> Some (JString s))
      \<or> (\<exists>s. map_of kvs (ustr ''name'') = Some (JString s) \<and> trim s = [])
    \<longrightarrow> (\<exists>es. validatePayload rt (JObject kvs) = Failed es
              \<and> ustr ''name must be a non-empty string'' \<in> set es))"
proof (intro conjI impI)
  assume "map_of kvs (ustr ''id'') = None
      \<or> (\<forall>s. map_of kvs (ustr ''id'') \<noteq> Some (JString s))
      \<or> (\<exists>s. map_of kvs (ustr ''id'') = Some (JString s) \<and> trim s = [])"
  then have "ustr ''id must be a non-empty string'' \<in> set (field_errors rt (JObject kvs))"
    unfolding id_error_iff by (auto split: option.splits jsvalue.splits)
  then show "\<exists>es. validatePayload rt (JObject kvs) = Failed es
              \<and> ustr ''id must be a non-empty string'' \<in> set es"
    unfolding Failed_object_iff by auto
next
  assume "map_of kvs (ustr ''name'') = None
      \<or> (\<forall>s. map_of kvs (ustr ''name'') \<noteq> Some (JString s))
      \<or> (\<exists>s. map_of kvs (ustr ''name'') = Some (JString s) \<and> trim s = [])"
  then have "ustr ''name must be a non-empty string'' \<in> set (field_errors rt (JObject kvs))"
    unfolding name_error_iff by (auto split: option.splits jsvalue.splits)
  then show "\<exists>es. validatePayload rt (JObject kvs) = Failed es
              \<and> ustr ''name must be a non-empty string'' \<in> set es"
    unfolding Failed_object_iff by auto
qed

theorem blank_id_or_name_rejected_witness:
  "(\<exists>es. validatePayload utc_runtime (JObject []) = Failed es
         \<and> ustr ''id must be a non-empty string'' \<in> set es)
   \<and> (\<exists>es. validatePayload utc_runtime (JObject [(ustr ''id'', JString (ustr ''  ''))]) = Failed es
         \<and> ustr ''id must be a non-empty string'' \<in> set es)
   \<and> (\<exists>es. validatePayload utc_runtime (JObject [(ustr ''name'', JNumber (Finite 7))]) = Failed es
         \<and> ustr ''name must be a non-empty string'' \<in> set es)"
proof -
  have h1: "map_of ([] :: (jsstring \<times> jsvalue) list) (ustr ''id'') = None"
    by simp
  have h2: "\<exists>s. map_of [(ustr ''id'', JString (ustr ''  ''))] (ustr ''id'') = Some (JString s)
      \<and> trim s = []"
    by (simp add: trim_def ustr_def is_white_space_def)
  have h3: "\<forall>s. map_of [(ustr ''name'', JNumber (Finite 7))] (ustr ''name'') \<noteq> Some (JString s)"
    by simp
  show ?thesis
    using h1 h2 h3
      blank_id_or_name_rejected [of "[]" utc_runtime]
      blank_id_or_name_rejected [of "[(ustr ''id'', JString (ustr ''  ''))]" utc_runtime]
      blank_id_or_name_rejected [of "[(ustr ''name'', JNumber (Finite 7))]" utc_runtime]
    by blast
qed

text \<open>
  C5. For an object that violates one or more of the five field rules, every rule is
  evaluated, whatever the outcome of the others, and the result is a rejection that
  carries exactly one message for each violated rule, in the fixed order \<^verbatim>\<open>id\<close>,
  \<^verbatim>\<open>name\<close>, \<^verbatim>\<open>pricePence\<close>, \<^verbatim>\<open>description\<close>, \<^verbatim>\<open>updatedAt\<close>.
\<close>

theorem all_violations_reported_in_order:
  assumes "\<exists>rule \<in> set (field_rules rt (JObject kvs)). fst rule"
  shows "validatePayload rt (JObject kvs)
           = Failed (map snd (filter fst (field_rules rt (JObject kvs))))
         \<and> map snd (field_rules rt (JObject kvs))
           = [ustr ''id must be a non-empty string'', ustr ''name must be a non-empty string'',
              ustr ''pricePence must be a non-negative integer'',
              ustr ''description must be a string'',
              ustr ''updatedAt must be an ISO 8601 string (Date.toISOString)'']"
proof
  from assms have "filter fst (field_rules rt (JObject kvs)) \<noteq> []"
    by (simp add: filter_empty_conv)
  then have "field_errors rt (JObject kvs) \<noteq> []"
    by (simp add: field_errors_def)
  then show "validatePayload rt (JObject kvs)
           = Failed (map snd (filter fst (field_rules rt (JObject kvs))))"
    by (simp add: validatePayload_fields) (simp add: field_errors_def)
next
  show "map snd (field_rules rt (JObject kvs))
           = [ustr ''id must be a non-empty string'', ustr ''name must be a non-empty string'',
              ustr ''pricePence must be a non-negative integer'',
              ustr ''description must be a string'',
              ustr ''updatedAt must be an ISO 8601 string (Date.toISOString)'']"
    by (simp add: field_rules_def)
qed

theorem all_violations_reported_in_order_witness:
  "validatePayload utc_runtime
     (JObject [(ustr ''id'', JString []), (ustr ''name'', JString (ustr ''Widget'')),
               (ustr ''pricePence'', JNumber (Finite (- 5))),
               (ustr ''description'', JString []),
               (ustr ''updatedAt'', JString (ustr ''bad''))])
   = Failed [ustr ''id must be a non-empty string'',
             ustr ''pricePence must be a non-negative integer'',
             ustr ''updatedAt must be an ISO 8601 string (Date.toISOString)'']"
proof -
  let ?kvs = "[(ustr ''id'', JString []), (ustr ''name'', JString (ustr ''Widget'')),
               (ustr ''pricePence'', JNumber (Finite (- 5))),
               (ustr ''description'', JString []),
               (ustr ''updatedAt'', JString (ustr ''bad''))]"
  have bad: "new_Date utc_runtime (ustr ''bad'') = None"
    by (simp add: new_Date_def Date_parse_def utc_runtime_def ustr_def parse_defs)
  have rules: "map fst (field_rules utc_runtime (JObject ?kvs)) = [True, False, True, False, True]"
    by (simp add: field_rules_def bad) (simp add: ustr_def trim_def is_white_space_def)
  then have h: "\<exists>rule \<in> set (field_rules utc_runtime (JObject ?kvs)). fst rule"
    by (simp add: field_rules_def)
  have "map snd (filter fst (field_rules utc_runtime (JObject ?kvs)))
      = [ustr ''id must be a non-empty string'',
         ustr ''pricePence must be a non-negative integer'',
         ustr ''updatedAt must be an ISO 8601 string (Date.toISOString)'']"
    using rules by (simp add: field_rules_def)
  with all_violations_reported_in_order [OF h] show ?thesis
    by simp
qed

text \<open>
  C3. The handler maps outcomes to responses as the response table fixes them: when the
  body cannot be decoded, status 400 and \<^verbatim>\<open>{"error":"Invalid JSON body"}\<close>; when the
  decoded body fails validation, status 400 and
  \<^verbatim>\<open>{"error":"ValidationError","details":[messages]}\<close>; when it passes, status 202 and
  \<^verbatim>\<open>{"message":"accepted"}\<close>. The well-formed example payload yields the last.
\<close>

theorem handler_response_table:
  "fst (productUpdatedHttpHandler rt (Inl err) ctx)
     = \<lparr>status = 400,
        jsonBody = JObject [(ustr ''error'', JString (ustr ''Invalid JSON body''))]\<rparr>
   \<and> (validatePayload rt body = Failed es
      \<longrightarrow> fst (productUpdatedHttpHandler rt (Inr body) ctx)
          = \<lparr>status = 400,
             jsonBody = JObject [(ustr ''error'', JString (ustr ''ValidationError'')),
                                 (ustr ''details'', JArray (map JString es))]\<rparr>)
   \<and> (validatePayload rt body = Ok d
      \<longrightarrow> fst (productUpdatedHttpHandler rt (Inr body) ctx)
          = \<lparr>status = 202,
             jsonBody = JObject [(ustr ''message'', JString (ustr ''accepted''))]\<rparr>)
   \<and> fst (productUpdatedHttpHandler rt (Inr example_payload) ctx)
       = \<lparr>status = 202,
          jsonBody = JObject [(ustr ''message'', JString (ustr ''accepted''))]\<rparr>"
proof -
  have "field_errors rt example_payload = []"
    by (simp add: field_errors_def field_rules_def example_payload_def new_Date_canonical
        toISOString_canonical)
       (simp add: ustr_def trim_def is_white_space_def)
  then have "\<exists>d. validatePayload rt example_payload = Ok d"
    by (simp add: validatePayload_fields example_payload_def)
  then show ?thesis
    by (auto simp add: productUpdatedHttpHandler_def Let_def)
qed

theorem handler_response_table_witness:
  "fst (productUpdatedHttpHandler utc_runtime (Inr JNull) [])
     = \<lparr>status = 400,
        jsonBody = JObject [(ustr ''error'', JString (ustr ''ValidationError'')),
                            (ustr ''details'',
                             JArray [JString (ustr ''Body must be a JSON object.'')])]\<rparr>
   \<and> fst (productUpdatedHttpHandler utc_runtime (Inr example_payload) [])
     = \<lparr>status = 202,
        jsonBody = JObject [(ustr ''message'', JString (ustr ''accepted''))]\<rparr>"
proof -
  have h1: "validatePayload utc_runtime JNull = Failed [ustr ''Body must be a JSON object.'']"
    by (simp add: validatePayload_def)
  have "\<exists>d. validatePayload utc_runtime example_payload = Ok d"
    by (simp add: validatePayload_fields field_errors_def field_rules_def example_payload_def
        new_Date_canonical toISOString_canonical)
       (simp add: ustr_def trim_def is_white_space_def)
  then obtain d where h2: "validatePayload utc_runtime example_payload = Ok d"
    by blast
  show ?thesis
    using h1 h2
      handler_response_table
        [of utc_runtime JNull "[]" JNull "[ustr ''Body must be a JSON object.'']"]
      handler_response_table [of utc_runtime JNull "[]" example_payload _ d]
    by simp
qed

text \<open>
  C8. The validator computes its result from its argument alone. It is a function, so
  equal inputs give equal results; it takes no logging context and returns nothing but
  its result, the calls of \<^verbatim>\<open>context.log\<close> and \<^verbatim>\<open>context.warn\<close> being the handler's. The one
  piece of process-wide state within its reach is that of the Date built-in, the local
  time zone and the implementation's own date formats, and the result depends on neither.
\<close>

theorem validatePayload_independent_of_runtime:
  "validatePayload rt body = validatePayload rt' body"
  unfolding validatePayload_def isIsoDateString_runtime [of rt _ rt'] ..

theorem validatePayload_independent_of_runtime_witness:
  "validatePayload utc_runtime
     (JObject [(ustr ''id'', JString (ustr ''p1'')),
               (ustr ''updatedAt'', JString (ustr ''2024-01-01T00:00:00.000''))])
   = validatePayload lenient_runtime
     (JObject [(ustr ''id'', JString (ustr ''p1'')),
               (ustr ''updatedAt'', JString (ustr ''2024-01-01T00:00:00.000''))])"
  by (rule validatePayload_independent_of_runtime [of utc_runtime _ lenient_runtime])

text \<open>
  The second example of the specification, with three violated rules, is answered with
  status 400 and the three messages, whatever the runtime makes of the string \<^verbatim>\<open>"bad"\<close>.
\<close>

lemma isIsoDateString_bad: "\<not> isIsoDateString rt (JString (ustr ''bad''))"
proof
  assume "isIsoDateString rt (JString (ustr ''bad''))"
  then obtain t where "ustr ''bad'' = toISOString t"
    unfolding isIsoDateString_iff by blast
  then have "length (ustr ''bad'') = length (toISOString t)"
    by simp
  with length_toISOString [of t] show False
    by (simp add: ustr_def)
qed

lemma handler_rejects_invalid_example:
  "fst (productUpdatedHttpHandler rt
     (Inr (JObject [(ustr ''id'', JString []), (ustr ''name'', JString (ustr ''Widget'')),
                    (ustr ''pricePence'', JNumber (Finite (- 5))),
                    (ustr ''description'', JString []),
                    (ustr ''updatedAt'', JString (ustr ''bad''))])) ctx)
   = \<lparr>status = 400,
      jsonBody = JObject [(ustr ''error'', JString (ustr ''ValidationError'')),
                          (ustr ''details'',
                           JArray [JString (ustr ''id must be a non-empty string''),
                                   JString (ustr ''pricePence must be a non-negative integer''),
                                   JString (ustr
                                     ''updatedAt must be an ISO 8601 string (Date.toISOString)'')])]\<rparr>"
proof -
  let ?body = "JObject [(ustr ''id'', JString []), (ustr ''name'', JString (ustr ''Widget'')),
                    (ustr ''pricePence'', JNumber (Finite (- 5))),
                    (ustr ''description'', JString []),
                    (ustr ''updatedAt'', JString (ustr ''bad''))]"
  have bad: "\<not> (case new_Date rt (ustr ''bad'') of
                   Some t \<Rightarrow> toISOString t = ustr ''bad'' | None \<Rightarrow> False)"
    using isIsoDateString_bad [of rt]
    by (auto simp add: isIsoDateString_def split: option.splits)
  have "map fst (field_rules rt ?body) = [True, False, True, False, True]"
    using bad by (simp add: field_rules_def) (simp add: ustr_def trim_def is_white_space_def)
  then have "field_errors rt ?body
      = [ustr ''id must be a non-empty string'',
         ustr ''pricePence must be a non-negative integer'',
         ustr ''updatedAt must be an ISO 8601 string (Date.toISOString)'']"
    by (simp add: field_errors_def field_rules_def)
  then have "validatePayload rt ?body
      = Failed [ustr ''id must be a non-empty string'',
         ustr ''pricePence must be a non-negative integer'',
         ustr ''updatedAt must be an ISO 8601 string (Date.toISOString)'']"
    by (simp add: validatePayload_fields)
  then show ?thesis
    by (simp add: productUpdatedHttpHandler_def Let_def)
qed

end
